theory Spec2Isabelle
  imports Complex_Main "HOL-Library.Log_Nat" "HOL-Library.Multiset"
begin

section \<open>cc-personality: session reconstruction, statistics and archetype\<close>

text \<open>
  A shallow embedding of \<^verbatim>\<open>src/cli.mjs\<close>: the per-file body of \<^verbatim>\<open>scanSessions\<close>
  (lines 92--109), \<^verbatim>\<open>computeStats\<close>, the table \<^verbatim>\<open>ARCHETYPES\<close>, \<^verbatim>\<open>getArchetype\<close> and the
  part of \<^verbatim>\<open>main\<close> that connects them (lines 328--347).

  Conventions of the model.
  \<^item> A JavaScript number is an exact rational (\<^typ>\<open>rat\<close>) and a counter is a
    \<^typ>\<open>nat\<close>. Line 106 is the exception: its result is cut to a whole millisecond, so
    the rounding of each operation decides the value, and every operation of that line is
    rounded to an IEEE double (\<open>double\<close> below).
  \<^item> The time value of a \<^verbatim>\<open>Date\<close> is a whole number of milliseconds since the epoch
    (\<^typ>\<open>int\<close>), or NaN for an invalid date.
  \<^item> What the host decides is a parameter, the record \<open>host\<close>: the offset of its time
    zone (for \<^verbatim>\<open>getHours\<close>, \<^verbatim>\<open>getDay\<close>, \<^verbatim>\<open>toDateString\<close>), what its engine makes of the text
    of \<^verbatim>\<open>toDateString\<close> when line 233 reads it back with \<^verbatim>\<open>new Date\<close> (the language leaves the
    reading of that format to the engine, and it can be an invalid date), and the order
    its \<^verbatim>\<open>sort\<close> leaves when the comparator returns NaN.
  \<^item> The display fields \<^verbatim>\<open>name\<close> and \<^verbatim>\<open>jp\<close> of an archetype hold non-ASCII text and are
    left out; \<^verbatim>\<open>id\<close>, \<^verbatim>\<open>tagline\<close> and \<^verbatim>\<open>description\<close> are kept.
\<close>

subsection \<open>Dates\<close>

datatype date = Date int | InvalidDate

text \<open>
  \<^verbatim>\<open>new Date(x)\<close> for a finite number \<open>x\<close>: the time value is \<open>x\<close> with its fraction
  dropped (truncation towards zero). The values built by the program lie between two
  valid time values, so the range check of the constructor never fires.
\<close>

definition newDate :: "rat \<Rightarrow> int" where
  "newDate x = (if 0 \<le> x then \<lfloor>x\<rfloor> else \<lceil>x\<rceil>)"

definition msPerHour :: int where
  "msPerHour = 3600000"

definition msPerDay :: int where
  "msPerDay = 86400000"

subsection \<open>IEEE doubles\<close>

text \<open>
  Rounding to the nearest integer, a tie going to the even one.
\<close>

definition roundEven :: "rat \<Rightarrow> int" where
  "roundEven y =
     (let f = \<lfloor>y\<rfloor>; r = y - of_int f
      in if r < 1 / 2 then f else if 1 / 2 < r then f + 1 else if even f then f else f + 1)"

text \<open>
  For \<open>x > 0\<close>, the exponent \<open>k\<close> with \<open>2 ^ k \<le> x < 2 ^ (k + 1)\<close>, from the bit lengths of
  numerator and denominator.
\<close>

definition ilog2 :: "rat \<Rightarrow> int" where
  "ilog2 x =
     (let k = bitlen (fst (quotient_of x)) - bitlen (snd (quotient_of x))
      in if 2 powi k \<le> x then k else k - 1)"

text \<open>
  The double nearest to \<open>x\<close> (53 significant bits, ties to even), which is what each
  arithmetic operation of JavaScript returns for the exact result \<open>x\<close>. Overflow and
  subnormal numbers are left out: the values of line 106 for dates in the range of
  \<^verbatim>\<open>Date\<close> are far from both.
\<close>

definition double :: "rat \<Rightarrow> rat" where
  "double x =
     (if x = 0 then 0
      else let e = ilog2 \<bar>x\<bar> - 52
           in sgn x * of_int (roundEven (\<bar>x\<bar> / 2 powi e)) * 2 powi e)"

subsection \<open>The host\<close>

record host =
  offsetAtUTC :: "int \<Rightarrow> int"
  parseDateString :: "int \<Rightarrow> date"
  sortOrder :: "date list \<Rightarrow> date list"

definition localTime :: "host \<Rightarrow> int \<Rightarrow> int" where
  "localTime tz t = t + offsetAtUTC tz t"

definition getHours :: "host \<Rightarrow> int \<Rightarrow> nat" where
  "getHours tz t = nat ((localTime tz t div msPerHour) mod 24)"

definition getDay :: "host \<Rightarrow> int \<Rightarrow> nat" where
  "getDay tz t = nat ((localTime tz t div msPerDay + 4) mod 7)"

text \<open>
  \<^verbatim>\<open>toDateString()\<close> prints the local calendar date (weekday, month, day, year). The
  model keeps the number of the local day instead of the text: two dates print the same
  string exactly when they fall on the same local day. The field \<open>parseDateString\<close> of
  the host is \<^verbatim>\<open>new Date(d)\<close> for such a text \<open>d\<close>.
\<close>

definition toDateString :: "host \<Rightarrow> int \<Rightarrow> int" where
  "toDateString tz t = localTime tz t div msPerDay"

text \<open>The difference of two dates as numbers (\<^verbatim>\<open>a - b\<close>); \<open>None\<close> is NaN.\<close>

fun dateDiff :: "date \<Rightarrow> date \<Rightarrow> int option" where
  "dateDiff (Date a) (Date b) = Some (a - b)"
| "dateDiff _ _ = None"

text \<open>The time values of the valid dates of a list.\<close>

fun timeValues :: "date list \<Rightarrow> int list" where
  "timeValues [] = []"
| "timeValues (Date t # ds) = t # timeValues ds"
| "timeValues (InvalidDate # ds) = timeValues ds"

text \<open>
  \<^verbatim>\<open>ds.sort((a, b) => a - b)\<close>. On valid dates the comparator orders by time value and
  the result is the ascending order. With an invalid date among them the comparator
  returns NaN, and the language only promises some rearrangement of the array, which is
  the host's \<open>sortOrder\<close> (taken only when it is a rearrangement).
\<close>

definition sortDates :: "host \<Rightarrow> date list \<Rightarrow> date list" where
  "sortDates tz ds =
     (if InvalidDate \<in> set ds
      then (let r = sortOrder tz ds in if mset r = mset ds then r else ds)
      else map Date (sort (timeValues ds)))"

subsection \<open>Session reconstruction (\<^verbatim>\<open>scanSessions\<close>, lines 92--109)\<close>

record session =
  start :: int
  end' :: int
  hours :: rat

definition SESSION_GAP_HOURS :: rat where
  "SESSION_GAP_HOURS = 1 / 2"

text \<open>Line 99, for two valid dates: \<^verbatim>\<open>(endTime - start) / 3600000\<close>.\<close>

definition durationHours :: "int \<Rightarrow> int \<Rightarrow> rat" where
  "durationHours s e = of_int (e - s) / 3600000"

text \<open>Line 104: \<^verbatim>\<open>Math.max(1, Math.ceil(durationHours / 2))\<close>.\<close>

definition numSubs :: "rat \<Rightarrow> int" where
  "numSubs d = max 1 \<lceil>d / 2\<rceil>"

text \<open>
  Lines 106--107: the sub-session pushed by iteration \<open>i\<close> of the loop. In line 106 the
  quotient \<^verbatim>\<open>i / numSubs\<close>, the difference \<^verbatim>\<open>endTime - start\<close>, their product and the sum with
  \<^verbatim>\<open>start.getTime()\<close> are each rounded to a double before \<^verbatim>\<open>new Date\<close> drops the fraction.
\<close>

definition subSession :: "int \<Rightarrow> int \<Rightarrow> nat \<Rightarrow> session" where
  "subSession s e i =
     (let d = durationHours s e;
          n = numSubs d;
          subStart = newDate (double (of_int s
                       + double (double (of_int (int i) / of_int n) * double (of_int (e - s)))))
      in \<lparr>start = subStart, end' = subStart, hours = d / of_int n\<rparr>)"

text \<open>
  Lines 99--109. When a date is invalid the span is NaN: the comparison of line 100 is
  false, \<^verbatim>\<open>numSubs\<close> is NaN, and the loop pushes nothing.
\<close>

fun spanSessions :: "date \<Rightarrow> date \<Rightarrow> session list" where
  "spanSessions (Date s) (Date e) =
     (let d = durationHours s e in
      if d < SESSION_GAP_HOURS * 2
      then [\<lparr>start = s, end' = e, hours = max d (1 / 100)\<rparr>]
      else map (subSession s e) [0 ..< nat (numSubs d)])"
| "spanSessions _ _ = []"

text \<open>Line 95: \<^verbatim>\<open>end || start\<close>, where \<open>None\<close> is \<^verbatim>\<open>null\<close> and every date object is truthy.\<close>

definition endTime :: "date \<Rightarrow> date option \<Rightarrow> date" where
  "endTime s en = (case en of None \<Rightarrow> s | Some e \<Rightarrow> e)"

text \<open>
  Lines 92--109: \<open>st\<close> and \<open>en\<close> are the results of \<^verbatim>\<open>parseTimestamp\<close> on the first and
  the last line; a file with no first timestamp is skipped.
\<close>

definition fileSessions :: "date option \<Rightarrow> date option \<Rightarrow> session list" where
  "fileSessions st en =
     (case st of
        None \<Rightarrow> []
      | Some s \<Rightarrow> spanSessions s (endTime s en))"

text \<open>
  The two loops of lines 79--112 over the files that could be read, each given by its two
  parse results: the sessions are pushed file after file.
\<close>

definition scanFiles :: "(date option \<times> date option) list \<Rightarrow> session list" where
  "scanFiles files = concat (map (\<lambda>(st, en). fileSessions st en) files)"

subsection \<open>Statistics (\<^verbatim>\<open>computeStats\<close>)\<close>

text \<open>
  The value of \<^verbatim>\<open>totalDays\<close>: a whole number of days, or NaN when the first or the last
  date of line 236 is invalid.
\<close>

datatype span = Days int | NaN

record stats =
  totalSessions :: nat
  totalHours :: rat
  activeDays :: nat
  totalDays :: span
  maxStreak :: nat
  nightPct :: rat
  morningPct :: rat
  afternoonPct :: rat
  eveningPct :: rat
  weekendRatio :: rat
  avgSessionHours :: rat
  hourBuckets :: "nat list"
  dayBuckets :: "nat list"
  projectCount :: int
  peakHour :: int

text \<open>\<^verbatim>\<open>xs.slice(b, e)\<close> and \<^verbatim>\<open>xs.slice(b)\<close> for indices within the array.\<close>

definition slice :: "nat \<Rightarrow> nat \<Rightarrow> 'a list \<Rightarrow> 'a list" where
  "slice b e xs = drop b (take e xs)"

definition sliceFrom :: "nat \<Rightarrow> 'a list \<Rightarrow> 'a list" where
  "sliceFrom b xs = drop b xs"

text \<open>\<^verbatim>\<open>xs.reduce((a, b) => a + b, 0)\<close>.\<close>

definition reduceSum :: "nat list \<Rightarrow> nat" where
  "reduceSum xs = foldl (\<lambda>a b. a + b) 0 xs"

text \<open>\<^verbatim>\<open>for (const s of sessions) buckets[key(s)]++\<close>, on an array of zeros.\<close>

definition bump :: "nat list \<Rightarrow> nat \<Rightarrow> nat list" where
  "bump buckets k = buckets[k := buckets ! k + 1]"

definition fillBuckets :: "nat \<Rightarrow> (session \<Rightarrow> nat) \<Rightarrow> session list \<Rightarrow> nat list" where
  "fillBuckets n key sessions = foldl (\<lambda>buckets s. bump buckets (key s)) (replicate n 0) sessions"

text \<open>\<^verbatim>\<open>new Set(xs)\<close> spread into an array: the distinct values, in order of first occurrence.\<close>

definition setValues :: "'a list \<Rightarrow> 'a list" where
  "setValues xs = foldl (\<lambda>acc x. if x \<in> set acc then acc else acc @ [x]) [] xs"

text \<open>Line 236: \<^verbatim>\<open>Math.ceil((lastDate - firstDate) / 86400000) + 1\<close>.\<close>

definition daySpan :: "date \<Rightarrow> date \<Rightarrow> span" where
  "daySpan firstDate lastDate =
     (case dateDiff lastDate firstDate of
        None \<Rightarrow> NaN
      | Some k \<Rightarrow> Days (\<lceil>(of_int k :: rat) / 86400000\<rceil> + 1))"

text \<open>
  Lines 238--247: one round of the streak loop on the pair \<open>(maxStreak, curStreak)\<close>, and
  the loop for \<open>i = 1 .. length - 1\<close>. With an invalid date \<open>diff\<close> is NaN, which is not
  \<open>1\<close>.
\<close>

definition streakStep :: "date list \<Rightarrow> nat \<times> nat \<Rightarrow> nat \<Rightarrow> nat \<times> nat" where
  "streakStep allDates st i =
     (let maxS = fst st; curS = snd st;
          diff = map_option (\<lambda>k. (of_int k :: rat) / 86400000)
                   (dateDiff (allDates ! i) (allDates ! (i - 1)))
      in if diff = Some 1
         then (let curS' = curS + 1 in (if curS' > maxS then curS' else maxS, curS'))
         else (maxS, 1))"

definition streakLoop :: "date list \<Rightarrow> nat \<times> nat" where
  "streakLoop allDates = foldl (streakStep allDates) (1, 1) [1 ..< length allDates]"

text \<open>\<^verbatim>\<open>Math.max(...xs)\<close> on an array of counts, and \<^verbatim>\<open>xs.indexOf(v)\<close>.\<close>

definition maxOf :: "nat list \<Rightarrow> nat" where
  "maxOf xs = foldl max 0 xs"

fun indexOf :: "'a list \<Rightarrow> 'a \<Rightarrow> int" where
  "indexOf [] v = - 1"
| "indexOf (x # xs) v = (if x = v then 0 else (let r = indexOf xs v in if r < 0 then r else r + 1))"

definition computeStats :: "host \<Rightarrow> session list \<Rightarrow> stats option" where
  "computeStats tz sessions =
     (if length sessions = 0 then None
      else
        let totalSessions = length sessions;
            totalHours = foldl (\<lambda>s x. s + hours x) 0 sessions;
            hourBuckets = fillBuckets 24 (\<lambda>s. getHours tz (start s)) sessions;
            nightPct = of_nat (reduceSum (slice 0 5 hourBuckets) + reduceSum (sliceFrom 22 hourBuckets))
                         / of_nat totalSessions;
            morningPct = of_nat (reduceSum (slice 5 9 hourBuckets)) / of_nat totalSessions;
            afternoonPct = of_nat (reduceSum (slice 9 17 hourBuckets)) / of_nat totalSessions;
            eveningPct = of_nat (reduceSum (slice 17 22 hourBuckets)) / of_nat totalSessions;
            dayBuckets = fillBuckets 7 (\<lambda>s. getDay tz (start s)) sessions;
            weekdayTotal = (of_nat (reduceSum (slice 1 6 dayBuckets)) :: rat) / 5;
            weekendTotal = (of_nat (dayBuckets ! 0 + dayBuckets ! 6) :: rat) / 2;
            weekendRatio = (if weekdayTotal > 0 then weekendTotal / weekdayTotal else 0);
            daySet = setValues (map (\<lambda>s. toDateString tz (start s)) sessions);
            activeDays = length daySet;
            allDates = sortDates tz (map (parseDateString tz) daySet);
            firstDate = allDates ! 0;
            lastDate = allDates ! (length allDates - 1);
            totalDays = daySpan firstDate lastDate;
            maxStreak = fst (streakLoop allDates);
            avgSessionHours = totalHours / of_nat totalSessions
        in Some \<lparr>totalSessions = totalSessions,
                 totalHours = totalHours,
                 activeDays = activeDays,
                 totalDays = totalDays,
                 maxStreak = maxStreak,
                 nightPct = nightPct,
                 morningPct = morningPct,
                 afternoonPct = afternoonPct,
                 eveningPct = eveningPct,
                 weekendRatio = weekendRatio,
                 avgSessionHours = avgSessionHours,
                 hourBuckets = hourBuckets,
                 dayBuckets = dayBuckets,
                 projectCount = 0,
                 peakHour = indexOf hourBuckets (maxOf hourBuckets)\<rparr>)"

subsection \<open>Archetypes (\<^verbatim>\<open>ARCHETYPES\<close>, \<^verbatim>\<open>getArchetype\<close>)\<close>

record archetype =
  id' :: string
  tagline :: string
  description :: string

record rule =
  info :: archetype
  condition :: "stats \<Rightarrow> bool"

text \<open>
  In lines 157 and 165 a \<^verbatim>\<open>totalDays\<close> that is NaN makes the quotient NaN and the
  comparison false. Line 181 divides by \<^verbatim>\<open>activeDays\<close> with no guard. In JavaScript \<open>x / 0\<close> is
  \<open>Infinity\<close> for \<open>x > 0\<close> (and \<open>Infinity >= 15\<close> holds) and NaN for \<open>x = 0\<close> (and every
  comparison with NaN is false).
\<close>

definition sessionsPerDayAtLeast :: "stats \<Rightarrow> rat \<Rightarrow> bool" where
  "sessionsPerDayAtLeast s k =
     (if activeDays s = 0 then 0 < totalSessions s
      else k \<le> of_nat (totalSessions s) / of_nat (activeDays s))"

definition ARCHETYPES :: "rule list" where
  \<open>ARCHETYPES =
     [\<lparr>info = \<lparr>id' = ''night_beast'',
               tagline = ''"The compiler doesn't sleep, and neither do I."'',
               description = ''Your code runs on moonlight and caffeine. Peak hours: 0-5 AM.''\<rparr>,
       condition = (\<lambda>s. nightPct s \<ge> 30 / 100)\<rparr>,
      \<lparr>info = \<lparr>id' = ''dawn_coder'',
               tagline = ''"Fresh mind, fresh commits."'',
               description = ''You code when the world sleeps. Clear mind, elegant solutions.''\<rparr>,
       condition = (\<lambda>s. morningPct s \<ge> 40 / 100)\<rparr>,
      \<lparr>info = \<lparr>id' = ''machine'',
               tagline = ''"Rest days are a human concept."'',
               description = ''Consecutive days without a break. You simply don't stop.''\<rparr>,
       condition = (\<lambda>s. maxStreak s \<ge> 30)\<rparr>,
      \<lparr>info = \<lparr>id' = ''weekend_warrior'',
               tagline = ''"Monday to Friday is warmup."'',
               description = ''Saturday and Sunday are your real working days.''\<rparr>,
       condition = (\<lambda>s. weekendRatio s \<ge> 18 / 10)\<rparr>,
      \<lparr>info = \<lparr>id' = ''burst_genius'',
               tagline = ''"I do nothing for days, then ship everything at once."'',
               description = ''Irregular patterns. Long silences. Then explosive productivity.''\<rparr>,
       condition = (\<lambda>s. activeDays s > 0
                          \<and> (case totalDays s of
                                NaN \<Rightarrow> False
                              | Days t \<Rightarrow> of_int t / of_nat (activeDays s) \<ge> (25 / 10 :: rat)))\<rparr>,
      \<lparr>info = \<lparr>id' = ''disciplined'',
               tagline = ''"Consistency beats intensity."'',
               description = ''Steady pace every day. You finish what you start.''\<rparr>,
       condition = (\<lambda>s. activeDays s > 0
                          \<and> (case totalDays s of
                                NaN \<Rightarrow> False
                              | Days t \<Rightarrow> of_int t / of_nat (activeDays s) < (13 / 10 :: rat))
                          \<and> totalHours s / of_nat (activeDays s) < 6)\<rparr>,
      \<lparr>info = \<lparr>id' = ''session_monster'',
               tagline = ''"One more context window..."'',
               description = ''Long, deep sessions. You go down the rabbit hole and don't come back.''\<rparr>,
       condition = (\<lambda>s. avgSessionHours s \<ge> 25 / 10)\<rparr>,
      \<lparr>info = \<lparr>id' = ''micro_shipper'',
               tagline = ''"Ship small, ship often."'',
               description = ''Dozens of sessions per day. Fast, iterative, relentless.''\<rparr>,
       condition = (\<lambda>s. sessionsPerDayAtLeast s 15)\<rparr>,
      \<lparr>info = \<lparr>id' = ''explorer'',
               tagline = ''"Every project is a new world."'',
               description = ''Many projects, curious mind. You explore, you don't settle.''\<rparr>,
       condition = (\<lambda>s. projectCount s \<ge> 20)\<rparr>,
      \<lparr>info = \<lparr>id' = ''mono_focused'',
               tagline = ''"One project. Total mastery."'',
               description = ''Deep obsession with one thing. Mastery over breadth.''\<rparr>,
       condition = (\<lambda>s. projectCount s \<le> 3 \<and> totalSessions s \<ge> 100)\<rparr>]\<close>

text \<open>The decimal digits of a counter, as the template literal of line 280 prints it.\<close>

fun showNat :: "nat \<Rightarrow> string" where
  "showNat n =
     (if n < 10 then [char_of (48 + n)]
      else showNat (n div 10) @ [char_of (48 + n mod 10)])"

declare showNat.simps [simp del]

definition machineArchetype :: "stats \<Rightarrow> rule" where
  \<open>machineArchetype stats =
     \<lparr>info = \<lparr>id' = ''machine'',
              tagline = ''"Rest days are a human concept."'',
              description = showNat (maxStreak stats)
                              @ '' consecutive days of coding. You simply don't stop.''\<rparr>,
      condition = (\<lambda>s. maxStreak s \<ge> 30)\<rparr>\<close>

definition allArchetypes :: "stats \<Rightarrow> rule list" where
  "allArchetypes stats =
     map (\<lambda>a. if id' (info a) = ''machine'' then machineArchetype stats else a) ARCHETYPES"

definition balanced :: archetype where
  \<open>balanced =
     \<lparr>id' = ''balanced'',
      tagline = ''"Sustainable velocity wins the race."'',
      description = ''You code consistently without burning out. Rare and admirable.''\<rparr>\<close>

text \<open>Lines 287--291: the first archetype of the list whose condition holds.\<close>

fun firstMatch :: "rule list \<Rightarrow> stats \<Rightarrow> rule option" where
  "firstMatch [] stats = None"
| "firstMatch (a # rest) stats = (if condition a stats then Some a else firstMatch rest stats)"

definition getArchetype :: "stats \<Rightarrow> archetype" where
  "getArchetype stats =
     (case firstMatch (allArchetypes stats) stats of
        Some a \<Rightarrow> info a
      | None \<Rightarrow> balanced)"

subsection \<open>The pipeline of \<^verbatim>\<open>main\<close> (lines 328--347)\<close>

text \<open>
  \<open>NoSessionsFound\<close> is the exit with status 1 of lines 330--334. \<open>TypeError\<close> is what
  the assignment of line 345 would raise on \<^verbatim>\<open>null\<close>.
\<close>

datatype failure = NoSessionsFound | TypeError

definition mainCore :: "host \<Rightarrow> session list \<Rightarrow> int \<Rightarrow> failure + (stats \<times> archetype)" where
  "mainCore tz sessions pc =
     (if length sessions = 0 then Inl NoSessionsFound
      else case computeStats tz sessions of
             None \<Rightarrow> Inl TypeError
           | Some stats \<Rightarrow>
               (let stats' = stats\<lparr>projectCount := pc\<rparr>;
                    archetype = getArchetype stats'
                in Inr (stats', archetype)))"

subsection \<open>The invariant of the streak loop\<close>

text \<open>
  Before round \<open>k\<close> of the loop, both counters are at least 1 and no larger than the
  number of whole days from the first date to date \<open>k - 1\<close>, plus one.
\<close>

definition streakInv :: "int list \<Rightarrow> nat \<Rightarrow> nat \<times> nat \<Rightarrow> bool" where
  "streakInv ds k st =
     (1 \<le> fst st \<and> 1 \<le> snd st
      \<and> (int (fst st) - 1) * 86400000 \<le> ds ! (k - 1) - ds ! 0
      \<and> (int (snd st) - 1) * 86400000 \<le> ds ! (k - 1) - ds ! 0)"

subsection \<open>Example inputs\<close>

text \<open>
  A host on UTC whose engine reads every date text back as the midnight it names, and
  five files, one per day from 1 January 1970, each from 02:00 to 03:00.
\<close>

definition utc :: host where
  "utc = \<lparr>offsetAtUTC = (\<lambda>t. 0),
          parseDateString = (\<lambda>d. Date (d * 86400000)),
          sortOrder = (\<lambda>ds. ds)\<rparr>"

definition fiveNights :: "(date option \<times> date option) list" where
  "fiveNights =
     map (\<lambda>d. (Some (Date (d * 86400000 + 7200000)), Some (Date (d * 86400000 + 10800000))))
       [0, 1, 2, 3, 4]"

text \<open>
  A host on UTC whose engine, like V8, does not read back a date text with a year below
  0 (\<^verbatim>\<open>"Fri Jan 01 -0001"\<close>); day \<open>- 719528\<close> is 1 January of year 0. The file \<open>yearMinusOne\<close>
  has the single timestamp \<^verbatim>\<open>-000001-01-01T00:00:00.000Z\<close>.
\<close>

definition utcFromYearZero :: host where
  "utcFromYearZero =
     \<lparr>offsetAtUTC = (\<lambda>t. 0),
      parseDateString = (\<lambda>d. if d < - 719528 then InvalidDate else Date (d * 86400000)),
      sortOrder = (\<lambda>ds. ds)\<rparr>"

definition yearMinusOne :: "(date option \<times> date option) list" where
  "yearMinusOne = [(Some (Date (- 62198755200000)), None)]"

section \<open>Properties of session reconstruction\<close>

subsection \<open>Auxiliary facts\<close>

lemma newDate_of_int: "newDate (of_int k) = k"
  by (simp add: newDate_def)


lemma newDate_towards_zero: "\<bar>of_int (newDate x)\<bar> \<le> \<bar>x\<bar>"
  unfolding newDate_def by (auto; linarith)

lemma numSubs_long: "1 \<le> d \<Longrightarrow> numSubs d = \<lceil>d / 2\<rceil> \<and> 1 \<le> \<lceil>d / 2\<rceil>"
proof -
  assume "1 \<le> d"
  then have "0 < d / 2" by simp
  then have "0 < \<lceil>d / 2\<rceil>" by (simp add: less_ceiling_iff)
  then show ?thesis by (simp add: numSubs_def)
qed

lemma long_hours_floor:
  assumes "1 \<le> d"
  shows "1 / 100 \<le> d / of_int (numSubs d)"
proof -
  have n: "numSubs d = \<lceil>d / 2\<rceil>" "1 \<le> \<lceil>d / 2\<rceil>" using numSubs_long [OF assms] by simp_all
  have "of_int \<lceil>d / 2\<rceil> < d / 2 + 1" by linarith
  then have "(of_int \<lceil>d / 2\<rceil> :: rat) \<le> 100 * d" using assms by linarith
  moreover have pos: "(0::rat) < of_int \<lceil>d / 2\<rceil>" using n(2) by simp
  ultimately have "1 / 100 \<le> d / of_int \<lceil>d / 2\<rceil>"
    by (simp add: pos_le_divide_eq)
  then show ?thesis by (simp only: n(1))
qed





lemma ilog2_lower:
  assumes "0 < x"
  shows "2 powi ilog2 x \<le> x"
proof -
  obtain p q where pq: "quotient_of x = (p, q)" by (cases "quotient_of x")
  have q: "0 < q" using quotient_of_denom_pos [OF pq] .
  have x: "x = of_int p / of_int q" using quotient_of_div [OF pq] .
  have p: "0 < p" using assms q unfolding x by (simp add: zero_less_divide_iff)
  define k where "k = bitlen p - bitlen q"
  have bp: "2 ^ nat (bitlen p - 1) \<le> p" using bitlen_bounds [OF p] by simp
  have bq: "q < 2 ^ nat (bitlen q)" using bitlen_bounds [OF q] by simp
  have bp1: "1 \<le> bitlen p" using p by (simp add: bitlen_alt_def)
  have bq0: "0 \<le> bitlen q" by (rule bitlen_nonneg)
  have P: "(2::rat) powi (bitlen p - 1) \<le> of_int p"
  proof -
    have "(of_int (2 ^ nat (bitlen p - 1)) :: rat) \<le> of_int p" using bp by (simp only: of_int_le_iff)
    then show ?thesis using bp1 by (simp add: power_int_def)
  qed
  have Q: "(of_int q :: rat) \<le> 2 powi (bitlen q)"
  proof -
    have "(of_int q :: rat) \<le> of_int (2 ^ nat (bitlen q))" using bq by (simp only: of_int_le_iff)
    then show ?thesis using bq0 by (simp add: power_int_def)
  qed
  have low: "(2::rat) powi (k - 1) \<le> x"
  proof -
    have "k - 1 = (bitlen p - 1) - bitlen q" by (simp add: k_def)
    moreover have "(2::rat) powi ((bitlen p - 1) - bitlen q) = 2 powi (bitlen p - 1) / 2 powi (bitlen q)"
      by (rule power_int_diff) simp
    ultimately have "(2::rat) powi (k - 1) = 2 powi (bitlen p - 1) / 2 powi (bitlen q)"
      by (simp only:)
    also have "\<dots> \<le> of_int p / 2 powi (bitlen q)"
      using P by (simp add: divide_right_mono)
    also have "\<dots> \<le> of_int p / of_int q"
      using Q p q by (simp add: frac_le)
    finally show ?thesis unfolding x .
  qed
  show ?thesis
    using low by (simp add: ilog2_def Let_def pq k_def)
qed

lemma ilog2_upper:
  assumes "0 < x"
  shows "x < 2 powi (ilog2 x + 1)"
proof -
  obtain p q where pq: "quotient_of x = (p, q)" by (cases "quotient_of x")
  have q: "0 < q" using quotient_of_denom_pos [OF pq] .
  have x: "x = of_int p / of_int q" using quotient_of_div [OF pq] .
  have p: "0 < p" using assms q unfolding x by (simp add: zero_less_divide_iff)
  define k where "k = bitlen p - bitlen q"
  have bp: "p < 2 ^ nat (bitlen p)" using bitlen_bounds [OF p] by simp
  have bq: "2 ^ nat (bitlen q - 1) \<le> q" using bitlen_bounds [OF q] by simp
  have bp0: "0 \<le> bitlen p" by (rule bitlen_nonneg)
  have bq1: "1 \<le> bitlen q" using q by (simp add: bitlen_alt_def)
  have P: "(of_int p :: rat) < 2 powi (bitlen p)"
  proof -
    have "(of_int p :: rat) < of_int (2 ^ nat (bitlen p))" using bp by (simp only: of_int_less_iff)
    then show ?thesis using bp0 by (simp add: power_int_def)
  qed
  have Q: "(2::rat) powi (bitlen q - 1) \<le> of_int q"
  proof -
    have "(of_int (2 ^ nat (bitlen q - 1)) :: rat) \<le> of_int q" using bq by (simp only: of_int_le_iff)
    then show ?thesis using bq1 by (simp add: power_int_def)
  qed
  have up: "x < 2 powi (k + 1)"
  proof -
    have "x < 2 powi (bitlen p) / of_int q"
      unfolding x using P q by (simp add: divide_strict_right_mono)
    also have "\<dots> \<le> 2 powi (bitlen p) / 2 powi (bitlen q - 1)"
      using Q q by (intro divide_left_mono) simp_all
    also have "\<dots> = 2 powi (bitlen p - (bitlen q - 1))"
      by (rule power_int_diff [symmetric]) simp
    also have "bitlen p - (bitlen q - 1) = k + 1" by (simp add: k_def)
    finally show ?thesis .
  qed
  show ?thesis
  proof (cases "2 powi k \<le> x")
    case True
    then show ?thesis using up by (simp add: ilog2_def Let_def pq k_def)
  next
    case False
    then have "x < 2 powi k" by simp
    then show ?thesis using False by (simp add: ilog2_def Let_def pq k_def)
  qed
qed

text \<open>The number that \<open>double\<close> rounds to an integer has exactly 53 bits before the point.\<close>

lemma double_mantissa:
  assumes "x \<noteq> 0"
  shows "2 ^ 52 \<le> \<bar>x\<bar> / 2 powi (ilog2 \<bar>x\<bar> - 52)" and "\<bar>x\<bar> / 2 powi (ilog2 \<bar>x\<bar> - 52) < 2 ^ 53"
proof -
  define a where "a = \<bar>x\<bar>"
  have a: "0 < a" using assms by (simp add: a_def)
  have e: "(2::rat) powi (ilog2 \<bar>x\<bar> - 52) = 2 powi (ilog2 \<bar>x\<bar>) / 2 ^ 52"
    using power_int_diff [of "2::rat" "ilog2 \<bar>x\<bar>" 52] by simp
  have P: "(0::rat) < 2 powi (ilog2 a)" by simp
  have "2 ^ 52 \<le> a / (2 powi (ilog2 a) / 2 ^ 52)"
    using ilog2_lower [OF a] P by (simp add: pos_le_divide_eq)
  then show "2 ^ 52 \<le> \<bar>x\<bar> / 2 powi (ilog2 \<bar>x\<bar> - 52)" unfolding a_def e .
  have "(2::rat) powi (ilog2 a + 1) = 2 powi (ilog2 a) * 2"
    using power_int_add [of "2::rat" "ilog2 a" 1] by simp
  then have "a < 2 powi (ilog2 a) * 2" using ilog2_upper [OF a] by simp
  then have "a / (2 powi (ilog2 a) / 2 ^ 52) < 2 ^ 53"
    using P by (simp add: pos_divide_less_eq)
  then show "\<bar>x\<bar> / 2 powi (ilog2 \<bar>x\<bar> - 52) < 2 ^ 53" unfolding a_def e .
qed




subsection \<open>The short span\<close>

text \<open>
  Claim C3. An observation whose raw span is strictly less than one hour (twice
  \<open>SESSION_GAP_HOURS\<close>) yields exactly one session; its start and end are the
  observation's timestamps (the end being the start when the last timestamp is absent),
  and its duration is \<open>max durationHours 0.01\<close>, hence at least \<open>0.01\<close>.
\<close>

theorem short_span_single_session:
  assumes "endTime (Date s) en = Date e" and "durationHours s e < 1"
  shows "\<exists>x. fileSessions (Some (Date s)) en = [x] \<and> start x = s \<and> end' x = e
            \<and> hours x = max (durationHours s e) (1 / 100) \<and> 1 / 100 \<le> hours x"
  using assms by (simp add: fileSessions_def SESSION_GAP_HOURS_def)

text \<open>An instance of C3: a file whose two timestamps are half an hour apart.\<close>

theorem short_span_single_session_witness:
  "endTime (Date 0) (Some (Date 1800000)) = Date 1800000 \<and> durationHours 0 1800000 < 1
   \<and> (\<exists>x. fileSessions (Some (Date 0)) (Some (Date 1800000)) = [x] \<and> start x = 0 \<and> end' x = 1800000
            \<and> hours x = max (durationHours 0 1800000) (1 / 100) \<and> 1 / 100 \<le> hours x)"
proof -
  have a: "endTime (Date 0) (Some (Date 1800000)) = Date 1800000" by (simp add: endTime_def)
  have b: "durationHours 0 1800000 < 1" by (simp add: durationHours_def)
  show ?thesis using a b short_span_single_session [OF a b] by simp
qed

text \<open>
  Claim C10. When the last timestamp is strictly earlier than the first one, the span
  is negative, the short branch applies, and the single session keeps both timestamps
  as given with a duration of exactly \<open>0.01\<close>.
\<close>

theorem negative_span_floor:
  assumes "e < s"
  shows "fileSessions (Some (Date s)) (Some (Date e)) = [\<lparr>start = s, end' = e, hours = 1 / 100\<rparr>]"
proof -
  have "durationHours s e < 0" using assms by (simp add: durationHours_def divide_neg_pos)
  then show ?thesis
    by (simp add: fileSessions_def endTime_def SESSION_GAP_HOURS_def max_def)
qed

text \<open>An instance of C10: the last timestamp 100 ms before the first.\<close>

theorem negative_span_floor_witness:
  "(0::int) < 100 \<and> fileSessions (Some (Date 100)) (Some (Date 0)) = [\<lparr>start = 100, end' = 0, hours = 1 / 100\<rparr>]"
  using negative_span_floor [of 0 100] by simp

subsection \<open>The long span\<close>




text \<open>
  Another value of line 106: a span of about 16117 hours from 14 November 2023, where
  rounding moves sub-session 6012 one millisecond up.
\<close>

lemma sub_session_start_rounding:
  "numSubs (durationHours 1700000000000 1758021200001) = 8059
   \<and> start (subSession 1700000000000 1758021200001 6012) = 1743283714407"
  by code_simp

subsection \<open>The floor on durations\<close>

text \<open>
  Claim C9. Every session that reconstruction emits, for any pair of parse results and
  in both branches, has a duration of at least \<open>0.01\<close> hours.
\<close>

theorem session_hours_floor:
  "\<forall>x \<in> set (fileSessions st en). 1 / 100 \<le> hours x"
proof (cases st)
  case None
  then show ?thesis by (simp add: fileSessions_def)
next
  case (Some a)
  show ?thesis
  proof (cases a)
    case InvalidDate
    then show ?thesis using Some by (simp add: fileSessions_def)
  next
    case (Date s)
    show ?thesis
    proof (cases "endTime a en")
      case InvalidDate
      then show ?thesis using Some Date by (simp add: fileSessions_def)
    next
      case (Date e)
      show ?thesis
      proof (cases "durationHours s e < 1")
        case True
        then show ?thesis using Some \<open>a = Date s\<close> Date
          by (simp add: fileSessions_def SESSION_GAP_HOURS_def)
      next
        case False
        then have "1 \<le> durationHours s e" by simp
        from long_hours_floor [OF this] show ?thesis using Some \<open>a = Date s\<close> Date False
          by (simp add: fileSessions_def SESSION_GAP_HOURS_def subSession_def Let_def)
      qed
    qed
  qed
qed

text \<open>An instance of C9: the five sub-sessions of a ten-hour span.\<close>

theorem session_hours_floor_witness:
  "\<lparr>start = 7200000, end' = 7200000, hours = 2\<rparr>
     \<in> set (fileSessions (Some (Date 0)) (Some (Date 36000000)))
   \<and> 1 / 100 \<le> hours (fileSessions (Some (Date 0)) (Some (Date 36000000)) ! 1)"
proof -
  have m: "\<lparr>start = 7200000, end' = 7200000, hours = 2\<rparr>
             \<in> set (fileSessions (Some (Date 0)) (Some (Date 36000000)))"
    by code_simp
  have n: "fileSessions (Some (Date 0)) (Some (Date 36000000)) ! 1
             \<in> set (fileSessions (Some (Date 0)) (Some (Date 36000000)))"
    by code_simp
  from session_hours_floor n
  have "1 / 100 \<le> hours (fileSessions (Some (Date 0)) (Some (Date 36000000)) ! 1)"
    by (rule bspec)
  with m show ?thesis by (rule conjI)
qed

section \<open>Properties of the statistics\<close>

subsection \<open>Auxiliary facts\<close>

lemma foldl_add_sum_list: "foldl (\<lambda>a b. a + b) a xs = a + sum_list xs" for a :: nat
  by (induction xs arbitrary: a) simp_all

lemma reduceSum_sum_list: "reduceSum xs = sum_list xs"
  by (simp add: reduceSum_def foldl_add_sum_list)

lemma length_bump: "length (bump b k) = length b"
  by (simp add: bump_def)

lemma sum_list_bump: "k < length b \<Longrightarrow> sum_list (bump b k) = sum_list b + 1"
  by (simp add: bump_def sum_list_update)

lemma fill_loop:
  "\<forall>s \<in> set ss. key s < length b \<Longrightarrow>
     length (foldl (\<lambda>buckets s. bump buckets (key s)) b ss) = length b
     \<and> sum_list (foldl (\<lambda>buckets s. bump buckets (key s)) b ss) = sum_list b + length ss"
proof (induction ss arbitrary: b)
  case Nil
  show ?case by simp
next
  case (Cons x ss)
  have "\<forall>s \<in> set ss. key s < length (bump b (key x))" using Cons.prems by (simp add: length_bump)
  from Cons.IH [OF this] show ?case using Cons.prems by (simp add: length_bump sum_list_bump)
qed

lemma fillBuckets_total:
  assumes "\<And>s. key s < n"
  shows "length (fillBuckets n key ss) = n" and "sum_list (fillBuckets n key ss) = length ss"
  using fill_loop [of ss key "replicate n 0"] assms by (simp_all add: fillBuckets_def)

lemma getHours_range: "getHours tz t < 24"
  by (simp add: getHours_def nat_less_iff)

lemma getDay_range: "getDay tz t < 7"
  by (simp add: getDay_def nat_less_iff)

lemma sum_list_split: "sum_list xs = sum_list (take k xs) + sum_list (drop k xs)" for xs :: "nat list"
proof -
  have "sum_list (take k xs @ drop k xs) = sum_list (take k xs) + sum_list (drop k xs)"
    by (rule sum_list_append)
  then show ?thesis by simp
qed

lemma sum_list_slice:
  "a \<le> b \<Longrightarrow> sum_list (take b xs) = sum_list (take a xs) + sum_list (slice a b xs)" for xs :: "nat list"
  using sum_list_split [of "take b xs" a] by (simp add: slice_def min_def)

lemma bands_partition:
  fixes xs :: "nat list"
  shows "reduceSum (slice 0 5 xs) + reduceSum (sliceFrom 22 xs) + reduceSum (slice 5 9 xs)
           + reduceSum (slice 9 17 xs) + reduceSum (slice 17 22 xs) = sum_list xs"
proof -
  have 1: "sum_list xs = sum_list (take 22 xs) + sum_list (sliceFrom 22 xs)"
    unfolding sliceFrom_def by (rule sum_list_split)
  have 2: "sum_list (take 22 xs) = sum_list (take 17 xs) + sum_list (slice 17 22 xs)"
    by (rule sum_list_slice) simp
  have 3: "sum_list (take 17 xs) = sum_list (take 9 xs) + sum_list (slice 9 17 xs)"
    by (rule sum_list_slice) simp
  have 4: "sum_list (take 9 xs) = sum_list (take 5 xs) + sum_list (slice 5 9 xs)"
    by (rule sum_list_slice) simp
  have 5: "slice 0 5 xs = take 5 xs" by (simp add: slice_def)
  show ?thesis unfolding reduceSum_sum_list using 1 2 3 4 5 by simp
qed

lemma slice_take: "b \<le> length xs \<Longrightarrow> e \<le> length xs \<Longrightarrow> b \<le> e \<Longrightarrow> slice b e xs = map (\<lambda>i. xs ! i) [b ..< e]"
  by (rule nth_equalityI) (simp_all add: slice_def)

lemma computeStats_nonempty:
  "sessions \<noteq> [] \<Longrightarrow> \<exists>st. computeStats tz sessions = Some st"
  by (simp add: computeStats_def Let_def)

lemma computeStats_fields:
  assumes "computeStats tz sessions = Some st"
  shows "sessions \<noteq> []"
    and "totalSessions st = length sessions"
    and "hourBuckets st = fillBuckets 24 (\<lambda>s. getHours tz (start s)) sessions"
    and "dayBuckets st = fillBuckets 7 (\<lambda>s. getDay tz (start s)) sessions"
    and "nightPct st = of_nat (reduceSum (slice 0 5 (hourBuckets st)) + reduceSum (sliceFrom 22 (hourBuckets st)))
                         / of_nat (totalSessions st)"
    and "morningPct st = of_nat (reduceSum (slice 5 9 (hourBuckets st))) / of_nat (totalSessions st)"
    and "afternoonPct st = of_nat (reduceSum (slice 9 17 (hourBuckets st))) / of_nat (totalSessions st)"
    and "eveningPct st = of_nat (reduceSum (slice 17 22 (hourBuckets st))) / of_nat (totalSessions st)"
    and "projectCount st = 0"
  using assms by (auto simp: computeStats_def Let_def split: if_splits)

lemma computeStats_dates:
  assumes "computeStats tz sessions = Some st"
  shows "weekendRatio st =
           (if (of_nat (reduceSum (slice 1 6 (dayBuckets st))) :: rat) / 5 > 0
            then (of_nat (dayBuckets st ! 0 + dayBuckets st ! 6) / 2)
                   / (of_nat (reduceSum (slice 1 6 (dayBuckets st))) / 5)
            else 0)"
    and "activeDays st = length (setValues (map (\<lambda>s. toDateString tz (start s)) sessions))"
    and "totalDays st =
           (let allDates = sortDates tz (map (parseDateString tz)
                                   (setValues (map (\<lambda>s. toDateString tz (start s)) sessions)))
            in daySpan (allDates ! 0) (allDates ! (length allDates - 1)))"
    and "maxStreak st =
           fst (streakLoop (sortDates tz (map (parseDateString tz)
                                   (setValues (map (\<lambda>s. toDateString tz (start s)) sessions)))))"
  using assms by (auto simp: computeStats_def Let_def split: if_splits)

lemma set_setValues_loop:
  "set (foldl (\<lambda>acc x. if x \<in> set acc then acc else acc @ [x]) acc xs) = set acc \<union> set xs"
  by (induction xs arbitrary: acc) auto

lemma set_setValues: "set (setValues xs) = set xs"
  by (simp add: setValues_def set_setValues_loop)

lemma setValues_nonempty: "xs \<noteq> [] \<Longrightarrow> setValues xs \<noteq> []"
proof -
  assume "xs \<noteq> []"
  then have "set (setValues xs) \<noteq> {}" by (simp add: set_setValues)
  then show ?thesis by auto
qed

lemma distinct_setValues_loop:
  "distinct acc \<Longrightarrow> distinct (foldl (\<lambda>acc x. if x \<in> set acc then acc else acc @ [x]) acc xs)"
  by (induction xs arbitrary: acc) simp_all

lemma length_setValues: "length (setValues xs) = card (set xs)"
proof -
  have "distinct (setValues xs)" by (simp add: setValues_def distinct_setValues_loop)
  then have "length (setValues xs) = card (set (setValues xs))" by (simp add: distinct_card)
  then show ?thesis by (simp add: set_setValues)
qed

lemma timeValues_valid:
  "InvalidDate \<notin> set ds \<Longrightarrow> map Date (timeValues ds) = ds"
  by (induction ds rule: timeValues.induct) simp_all

lemma sortDates_valid:
  assumes "InvalidDate \<notin> set ds"
  shows "sortDates tz ds = map Date (sort (timeValues ds))"
    and "length (sort (timeValues ds)) = length ds"
proof -
  show "sortDates tz ds = map Date (sort (timeValues ds))"
    using assms by (simp add: sortDates_def)
  have "length (map Date (timeValues ds)) = length ds"
    by (simp only: timeValues_valid [OF assms])
  then show "length (sort (timeValues ds)) = length ds" by simp
qed

lemma sortDates_single: "sortDates tz [d] = [d]"
proof (cases d)
  case (Date t)
  then show ?thesis by (simp add: sortDates_def)
next
  case InvalidDate
  show ?thesis
  proof (cases "mset (sortOrder tz [InvalidDate]) = mset [InvalidDate]")
    case True
    then have "sortOrder tz [InvalidDate] = [InvalidDate]" by simp
    then show ?thesis using InvalidDate by (simp add: sortDates_def)
  next
    case False
    then show ?thesis using InvalidDate by (simp add: sortDates_def Let_def)
  qed
qed

lemma streakStep_day:
  assumes "i < length ys"
  shows "streakStep (map Date ys) (m, c) i =
     (if ys ! i - ys ! (i - 1) = 86400000 then (if c + 1 > m then c + 1 else m, c + 1) else (m, 1))"
proof -
  have "((of_int (ys ! i - ys ! (i - 1)) :: rat) / 86400000 = 1) = (ys ! i - ys ! (i - 1) = 86400000)"
  proof
    assume "(of_int (ys ! i - ys ! (i - 1)) :: rat) / 86400000 = 1"
    then have "(of_int (ys ! i - ys ! (i - 1)) :: rat) = of_int 86400000" by simp
    then show "ys ! i - ys ! (i - 1) = 86400000" by (simp only: of_int_eq_iff)
  next
    assume "ys ! i - ys ! (i - 1) = 86400000"
    then show "(of_int (ys ! i - ys ! (i - 1)) :: rat) / 86400000 = 1" by simp
  qed
  moreover have "i - 1 < length ys" using assms by simp
  ultimately show ?thesis using assms by (simp add: streakStep_def Let_def)
qed

lemma streakInv_step:
  assumes inv: "streakInv ds k st" and k: "1 \<le> k" "k < length ds" and srt: "sorted ds"
  shows "streakInv ds (Suc k) (streakStep (map Date ds) st k)"
proof -
  obtain m c where st: "st = (m, c)" by (cases st)
  have mono: "ds ! (k - 1) \<le> ds ! k" using srt k by (simp add: sorted_iff_nth_mono)
  have base: "ds ! 0 \<le> ds ! k" using srt k by (simp add: sorted_iff_nth_mono)
  from inv st have i: "1 \<le> m" "1 \<le> c"
    "(int m - 1) * 86400000 \<le> ds ! (k - 1) - ds ! 0"
    "(int c - 1) * 86400000 \<le> ds ! (k - 1) - ds ! 0"
    by (simp_all add: streakInv_def)
  show ?thesis
  proof (cases "ds ! k - ds ! (k - 1) = 86400000")
    case True
    have c': "(int (c + 1) - 1) * 86400000 \<le> ds ! k - ds ! 0" using i(4) True by (simp add: algebra_simps)
    have m': "(int m - 1) * 86400000 \<le> ds ! k - ds ! 0" using i(3) mono by linarith
    show ?thesis using True i(1) c' m' k(2) by (simp add: st streakStep_day streakInv_def)
  next
    case False
    have m': "(int m - 1) * 86400000 \<le> ds ! k - ds ! 0" using i(3) mono by linarith
    show ?thesis using False i(1) m' base k(2) by (simp add: st streakStep_day streakInv_def)
  qed
qed

lemma streakInv_loop:
  assumes srt: "sorted ds"
  shows "1 \<le> k \<Longrightarrow> k \<le> length ds \<Longrightarrow>
           streakInv ds k (foldl (streakStep (map Date ds)) (1, 1) [1 ..< k])"
proof (induction k)
  case 0
  then show ?case by simp
next
  case (Suc k)
  show ?case
  proof (cases "k = 0")
    case True
    then show ?thesis by (simp add: streakInv_def)
  next
    case False
    then have k: "1 \<le> k" "k < length ds" using Suc.prems by simp_all
    then have "streakInv ds k (foldl (streakStep (map Date ds)) (1, 1) [1 ..< k])" using Suc.IH by simp
    from streakInv_step [OF this k srt] show ?thesis using k(1) by simp
  qed
qed

lemma streakLoop_bounds:
  assumes "sorted ds" and "ds \<noteq> []"
  shows "1 \<le> fst (streakLoop (map Date ds))"
    and "int (fst (streakLoop (map Date ds)))
           \<le> \<lceil>(of_int (ds ! (length ds - 1) - ds ! 0) :: rat) / 86400000\<rceil> + 1"
proof -
  have len: "1 \<le> length ds" using assms(2) by (cases ds) simp_all
  have "streakInv ds (length ds) (foldl (streakStep (map Date ds)) (1, 1) [1 ..< length ds])"
    by (rule streakInv_loop [OF assms(1) len]) simp
  then have inv: "streakInv ds (length ds) (streakLoop (map Date ds))"
    by (simp add: streakLoop_def)
  then show "1 \<le> fst (streakLoop (map Date ds))" by (simp add: streakInv_def)
  from inv have "(int (fst (streakLoop (map Date ds))) - 1) * 86400000 \<le> ds ! (length ds - 1) - ds ! 0"
    by (simp add: streakInv_def)
  then have "(of_int ((int (fst (streakLoop (map Date ds))) - 1) * 86400000) :: rat)
               \<le> of_int (ds ! (length ds - 1) - ds ! 0)"
    by (simp only: of_int_le_iff)
  then have "(of_int (int (fst (streakLoop (map Date ds))) - 1) :: rat)
               \<le> of_int (ds ! (length ds - 1) - ds ! 0) / 86400000"
    by (simp add: pos_le_divide_eq)
  then have "int (fst (streakLoop (map Date ds))) - 1
               \<le> \<lceil>(of_int (ds ! (length ds - 1) - ds ! 0) :: rat) / 86400000\<rceil>"
    by (simp only: le_ceiling_iff)
  then show "int (fst (streakLoop (map Date ds)))
               \<le> \<lceil>(of_int (ds ! (length ds - 1) - ds ! 0) :: rat) / 86400000\<rceil> + 1"
    by simp
qed

text \<open>The example: five sessions at 02:00 on five days in a row, from Thursday to Monday.\<close>

lemma fiveNights_sessions:
  "scanFiles fiveNights =
     map (\<lambda>d. \<lparr>start = d * 86400000 + 7200000, end' = d * 86400000 + 7200000, hours = 1\<rparr>)
       [0, 1, 2, 3, 4]"
  by code_simp

lemma fiveNights_nonempty: "scanFiles fiveNights \<noteq> []"
  by (simp add: fiveNights_sessions)

lemma fiveNights_stats:
  "map_option (\<lambda>st. (activeDays st, totalDays st, maxStreak st,
                      nightPct st, morningPct st, afternoonPct st, eveningPct st,
                      weekendRatio st, dayBuckets st, projectCount st))
     (computeStats utc (scanFiles fiveNights))
   = Some (5, Days 5, 5, 1, 0, 0, 0, 5 / 3, [1, 1, 0, 0, 1, 1, 1], 0)"
  unfolding fiveNights_sessions by code_simp

text \<open>The file with a timestamp in year -1 gives one session of the shortest duration.\<close>

lemma yearMinusOne_sessions:
  "scanFiles yearMinusOne
     = [\<lparr>start = - 62198755200000, end' = - 62198755200000, hours = 1 / 100\<rparr>]"
  by code_simp

subsection \<open>Time-of-day bands\<close>

text \<open>
  Claim C4. For a non-empty sequence of sessions the snapshot exists, its hour histogram
  has 24 buckets that add up to the number of sessions, and the night, morning, afternoon
  and evening fractions add up to 1: the five slices (0--4 and 22--23, 5--8, 9--16, 17--21)
  split the histogram, and every fraction divides by the same \<open>totalSessions\<close>.
\<close>

theorem band_fractions_sum_to_one:
  assumes "sessions \<noteq> []"
  shows "\<exists>st. computeStats tz sessions = Some st
           \<and> length (hourBuckets st) = 24
           \<and> sum_list (hourBuckets st) = totalSessions st
           \<and> nightPct st + morningPct st + afternoonPct st + eveningPct st = 1"
proof -
  from computeStats_nonempty [OF assms] obtain st where st: "computeStats tz sessions = Some st"
    by blast
  note f = computeStats_fields [OF st]
  have total: "sum_list (hourBuckets st) = length sessions"
    unfolding f(3) by (rule fillBuckets_total) (rule getHours_range)
  have len: "length (hourBuckets st) = 24"
    unfolding f(3) by (rule fillBuckets_total) (rule getHours_range)
  have pos: "(of_nat (length sessions) :: rat) \<noteq> 0" using assms by simp
  have "nightPct st + morningPct st + afternoonPct st + eveningPct st
          = of_nat (reduceSum (slice 0 5 (hourBuckets st)) + reduceSum (sliceFrom 22 (hourBuckets st))
                    + reduceSum (slice 5 9 (hourBuckets st)) + reduceSum (slice 9 17 (hourBuckets st))
                    + reduceSum (slice 17 22 (hourBuckets st))) / of_nat (length sessions)"
    unfolding f(5) f(6) f(7) f(8) f(2) by (simp add: add_divide_distrib)
  also have "\<dots> = of_nat (length sessions) / of_nat (length sessions)"
    by (simp only: bands_partition total)
  also have "\<dots> = 1" using pos by simp
  finally show ?thesis using st len total f(2) by simp
qed

text \<open>An instance of C4: in the example every session falls in the night band.\<close>

theorem band_fractions_sum_to_one_witness:
  "scanFiles fiveNights \<noteq> []
   \<and> (\<exists>st. computeStats utc (scanFiles fiveNights) = Some st
            \<and> nightPct st = 1 \<and> morningPct st = 0 \<and> afternoonPct st = 0 \<and> eveningPct st = 0
            \<and> nightPct st + morningPct st + afternoonPct st + eveningPct st = 1)"
proof -
  have ne: "scanFiles fiveNights \<noteq> []" by (rule fiveNights_nonempty)
  from band_fractions_sum_to_one [OF ne, of utc] obtain st where
    st: "computeStats utc (scanFiles fiveNights) = Some st"
    and one: "nightPct st + morningPct st + afternoonPct st + eveningPct st = 1"
    by blast
  from fiveNights_stats st
  have "nightPct st = 1" "morningPct st = 0" "afternoonPct st = 0" "eveningPct st = 0"
    by simp_all
  with ne st one show ?thesis by blast
qed

subsection \<open>Weekend ratio\<close>

text \<open>
  Claim C8. For a non-empty sequence of sessions the day histogram has 7 buckets, and
  \<open>weekendRatio\<close> is the average of buckets 0 and 6 divided by the average of buckets 1 to 5
  when that weekday average is not zero, and 0 when it is zero; in both cases it is a
  number that is not negative (the division is only made by a positive number).
\<close>

theorem weekendRatio_defined:
  assumes "sessions \<noteq> []"
  shows "\<exists>st. computeStats tz sessions = Some st
           \<and> length (dayBuckets st) = 7
           \<and> weekendRatio st =
               (if (of_nat (dayBuckets st ! 1 + dayBuckets st ! 2 + dayBuckets st ! 3
                            + dayBuckets st ! 4 + dayBuckets st ! 5) :: rat) / 5 \<noteq> 0
                then (of_nat (dayBuckets st ! 0 + dayBuckets st ! 6) / 2)
                       / (of_nat (dayBuckets st ! 1 + dayBuckets st ! 2 + dayBuckets st ! 3
                                  + dayBuckets st ! 4 + dayBuckets st ! 5) / 5)
                else 0)
           \<and> 0 \<le> weekendRatio st"
proof -
  from computeStats_nonempty [OF assms] obtain st where st: "computeStats tz sessions = Some st"
    by blast
  note f = computeStats_fields [OF st] and g = computeStats_dates [OF st]
  have len: "length (dayBuckets st) = 7"
    unfolding f(4) by (rule fillBuckets_total) (rule getDay_range)
  have "slice 1 6 (dayBuckets st) = map (\<lambda>i. dayBuckets st ! i) [1 ..< 6]"
    by (rule slice_take) (simp_all add: len)
  also have "[1 ..< 6] = [1, 2, 3, 4, 5 :: nat]" by (simp add: upt_rec)
  finally have wd: "reduceSum (slice 1 6 (dayBuckets st))
                      = dayBuckets st ! 1 + dayBuckets st ! 2 + dayBuckets st ! 3
                        + dayBuckets st ! 4 + dayBuckets st ! 5"
    by (simp add: reduceSum_sum_list)
  have eq: "weekendRatio st =
               (if (of_nat (dayBuckets st ! 1 + dayBuckets st ! 2 + dayBuckets st ! 3
                            + dayBuckets st ! 4 + dayBuckets st ! 5) :: rat) / 5 \<noteq> 0
                then (of_nat (dayBuckets st ! 0 + dayBuckets st ! 6) / 2)
                       / (of_nat (dayBuckets st ! 1 + dayBuckets st ! 2 + dayBuckets st ! 3
                                  + dayBuckets st ! 4 + dayBuckets st ! 5) / 5)
                else 0)"
    unfolding g(1) wd by (simp del: of_nat_add)
  have nonneg: "0 \<le> weekendRatio st"
    unfolding eq by (simp del: of_nat_add)
  show ?thesis using st len eq nonneg by blast
qed

text \<open>
  An instance of C8: in the example Saturday and Sunday have one session each and the
  weekdays three in all, so the ratio is \<open>1 / (3 / 5)\<close>.
\<close>

theorem weekendRatio_defined_witness:
  "scanFiles fiveNights \<noteq> []
   \<and> (\<exists>st. computeStats utc (scanFiles fiveNights) = Some st
            \<and> dayBuckets st = [1, 1, 0, 0, 1, 1, 1]
            \<and> weekendRatio st = 5 / 3
            \<and> 0 \<le> weekendRatio st)"
proof -
  have ne: "scanFiles fiveNights \<noteq> []" by (rule fiveNights_nonempty)
  from weekendRatio_defined [OF ne, of utc] obtain st where
    st: "computeStats utc (scanFiles fiveNights) = Some st"
    and nonneg: "0 \<le> weekendRatio st"
    by blast
  from fiveNights_stats st
  have "dayBuckets st = [1, 1, 0, 0, 1, 1, 1]" "weekendRatio st = 5 / 3"
    by simp_all
  with ne st nonneg show ?thesis by blast
qed

subsection \<open>Longest streak\<close>

text \<open>
  Claim C7, as the code has it. For a non-empty sequence of sessions whose active dates
  are all read back as valid dates by line 233 (\<^verbatim>\<open>new Date\<close> on the text of
  \<^verbatim>\<open>toDateString\<close>), \<open>activeDays\<close> is the number of distinct local days on which a session
  starts and is at least one, \<open>totalDays\<close> is a number, and the
  longest streak (the result of the scan over the sorted distinct dates, which goes on
  with a streak exactly when two neighbours are 86400000 ms apart and else starts again
  at 1) is at least 1 and at most \<open>totalDays\<close>, the rounded-up number of days from the
  first to the last of these dates plus one. This holds whatever valid dates the engine
  reads and whatever the offsets of the time zone are.
\<close>

theorem longest_streak_bounds:
  assumes "sessions \<noteq> []"
    and "\<forall>s \<in> set sessions. parseDateString tz (toDateString tz (start s)) \<noteq> InvalidDate"
  shows "\<exists>st t. computeStats tz sessions = Some st
           \<and> activeDays st = card ((\<lambda>s. toDateString tz (start s)) ` set sessions)
           \<and> 1 \<le> activeDays st
           \<and> totalDays st = Days t
           \<and> 1 \<le> maxStreak st
           \<and> int (maxStreak st) \<le> t"
proof -
  from computeStats_nonempty [OF assms(1)] obtain st where st: "computeStats tz sessions = Some st"
    by blast
  note g = computeStats_dates [OF st]
  define daySet where "daySet = setValues (map (\<lambda>s. toDateString tz (start s)) sessions)"
  define parsed where "parsed = map (parseDateString tz) daySet"
  define ys where "ys = sort (timeValues parsed)"
  have ne: "daySet \<noteq> []" unfolding daySet_def using assms(1) by (intro setValues_nonempty) simp
  then have active: "1 \<le> activeDays st"
    unfolding g(2) daySet_def [symmetric] by (cases daySet) simp_all
  have distinct: "activeDays st = card ((\<lambda>s. toDateString tz (start s)) ` set sessions)"
    unfolding g(2) by (simp add: length_setValues)
  have valid: "InvalidDate \<notin> set parsed"
    using assms(2) by (auto simp: parsed_def daySet_def set_setValues)
  have all: "sortDates tz parsed = map Date ys" and len: "length ys = length parsed"
    unfolding ys_def by (rule sortDates_valid [OF valid])+
  have ne': "ys \<noteq> []" using ne len by (auto simp: parsed_def)
  have srt: "sorted ys" by (simp add: ys_def)
  have ms: "maxStreak st = fst (streakLoop (map Date ys))"
    unfolding g(4) daySet_def [symmetric] parsed_def [symmetric] all ..
  have "totalDays st = daySpan (map Date ys ! 0) (map Date ys ! (length (map Date ys) - 1))"
    unfolding g(3) daySet_def [symmetric] parsed_def [symmetric] all by (simp add: Let_def)
  then have td: "totalDays st
                   = Days (\<lceil>(of_int (ys ! (length ys - 1) - ys ! 0) :: rat) / 86400000\<rceil> + 1)"
    using ne' by (simp add: daySpan_def)
  from streakLoop_bounds [OF srt ne']
  have "1 \<le> maxStreak st"
    "int (maxStreak st) \<le> \<lceil>(of_int (ys ! (length ys - 1) - ys ! 0) :: rat) / 86400000\<rceil> + 1"
    unfolding ms by simp_all
  with st distinct active td show ?thesis by blast
qed

text \<open>An instance of C7: in the example the streak and the span are both five days.\<close>

theorem longest_streak_bounds_witness:
  "scanFiles fiveNights \<noteq> []
   \<and> list_all (\<lambda>s. parseDateString utc (toDateString utc (start s)) \<noteq> InvalidDate)
        (scanFiles fiveNights)
   \<and> (\<exists>st. computeStats utc (scanFiles fiveNights) = Some st
            \<and> activeDays st = 5 \<and> maxStreak st = 5 \<and> totalDays st = Days 5
            \<and> 1 \<le> maxStreak st \<and> int (maxStreak st) \<le> 5)"
proof -
  have ne: "scanFiles fiveNights \<noteq> []" by (rule fiveNights_nonempty)
  have v: "\<forall>s \<in> set (scanFiles fiveNights).
             parseDateString utc (toDateString utc (start s)) \<noteq> InvalidDate"
    by (simp add: utc_def)
  from longest_streak_bounds [OF ne v] obtain st t where
    st: "computeStats utc (scanFiles fiveNights) = Some st"
    and b: "totalDays st = Days t" "1 \<le> maxStreak st" "int (maxStreak st) \<le> t"
    by blast
  from fiveNights_stats st
  have c: "activeDays st = 5" "maxStreak st = 5" "totalDays st = Days 5"
    by simp_all
  with b have "int (maxStreak st) \<le> 5" by simp
  with ne v st b c show ?thesis by (auto simp: list_all_iff)
qed

text \<open>
  Claim C7 as it is worded fails for a session in year -1: the engine of this host does
  not read \<^verbatim>\<open>"Fri Jan 01 -0001"\<close> back, the only date is invalid, \<open>totalDays\<close> is NaN and the
  streak is 1, so \<open>longestStreak \<le> totalDays\<close> does not hold.
\<close>

theorem longest_streak_counterexample:
  "scanFiles yearMinusOne \<noteq> []
   \<and> map_option totalDays (computeStats utcFromYearZero (scanFiles yearMinusOne)) = Some NaN
   \<and> map_option activeDays (computeStats utcFromYearZero (scanFiles yearMinusOne)) = Some 1
   \<and> map_option maxStreak (computeStats utcFromYearZero (scanFiles yearMinusOne)) = Some 1"
  unfolding yearMinusOne_sessions by code_simp

section \<open>Properties of the classifier and of the pipeline\<close>

subsection \<open>Auxiliary facts\<close>

lemma firstMatch_None:
  "firstMatch rs s = None \<longleftrightarrow> (\<forall>i<length rs. \<not> condition (rs ! i) s)"
proof (induction rs)
  case Nil
  show ?case by simp
next
  case (Cons r rs)
  show ?case
  proof (cases "condition r s")
    case True
    then show ?thesis by auto
  next
    case False
    then show ?thesis using Cons.IH by (auto simp: less_Suc_eq_0_disj)
  qed
qed

lemma firstMatch_Some:
  "firstMatch rs s = Some r \<Longrightarrow>
     \<exists>i<length rs. rs ! i = r \<and> condition r s \<and> (\<forall>j<i. \<not> condition (rs ! j) s)"
proof (induction rs)
  case Nil
  then show ?case by simp
next
  case (Cons a rs)
  show ?case
  proof (cases "condition a s")
    case True
    with Cons.prems have "a = r" by simp
    with True have "(a # rs) ! 0 = r \<and> condition r s \<and> (\<forall>j<0. \<not> condition ((a # rs) ! j) s)"
      by simp
    then show ?thesis by (intro exI [of _ 0]) simp
  next
    case False
    with Cons.prems have "firstMatch rs s = Some r" by simp
    from Cons.IH [OF this] obtain i where
      i: "i < length rs" "rs ! i = r" "condition r s" "\<forall>j<i. \<not> condition (rs ! j) s"
      by blast
    have "\<forall>j<Suc i. \<not> condition ((a # rs) ! j) s"
      using False i(4) by (auto simp: less_Suc_eq_0_disj)
    with i(1-3) show ?thesis by (intro exI [of _ "Suc i"]) simp
  qed
qed

lemma allArchetypes_ids:
  "map (\<lambda>a. id' (info a)) (allArchetypes s) =
     [''night_beast'', ''dawn_coder'', ''machine'', ''weekend_warrior'', ''burst_genius'',
      ''disciplined'', ''session_monster'', ''micro_shipper'', ''explorer'', ''mono_focused'']"
  by (simp add: allArchetypes_def ARCHETYPES_def machineArchetype_def)

lemma getArchetype_chain:
  "id' (getArchetype s) =
     (if nightPct s \<ge> 30 / 100 then ''night_beast''
      else if morningPct s \<ge> 40 / 100 then ''dawn_coder''
      else if maxStreak s \<ge> 30 then ''machine''
      else if weekendRatio s \<ge> 18 / 10 then ''weekend_warrior''
      else if activeDays s > 0
                \<and> (case totalDays s of
                      NaN \<Rightarrow> False
                    | Days t \<Rightarrow> of_int t / of_nat (activeDays s) \<ge> (25 / 10 :: rat))
        then ''burst_genius''
      else if activeDays s > 0
                \<and> (case totalDays s of
                      NaN \<Rightarrow> False
                    | Days t \<Rightarrow> of_int t / of_nat (activeDays s) < (13 / 10 :: rat))
                \<and> totalHours s / of_nat (activeDays s) < 6
        then ''disciplined''
      else if avgSessionHours s \<ge> 25 / 10 then ''session_monster''
      else if sessionsPerDayAtLeast s 15 then ''micro_shipper''
      else if projectCount s \<ge> 20 then ''explorer''
      else if projectCount s \<le> 3 \<and> totalSessions s \<ge> 100 then ''mono_focused''
      else ''balanced'')"
  by (simp add: getArchetype_def allArchetypes_def ARCHETYPES_def machineArchetype_def balanced_def)

subsection \<open>First match wins\<close>

text \<open>
  Claim C1. For every snapshot the list that the classifier scans holds the ten
  archetypes in the order of their declaration; the result is the first of them whose
  condition holds, and the fixed archetype \<open>balanced\<close> when none holds. Spelled out on
  the identifiers, the result follows the chain of the ten conditions. In particular a
  snapshot with \<open>nightPct \<ge> 0.30\<close> and \<open>maxStreak \<ge> 30\<close> is classified \<open>night_beast\<close> (the
  first archetype), not \<open>machine\<close>.
\<close>

theorem getArchetype_first_match:
  "map (\<lambda>a. id' (info a)) (allArchetypes s) =
     [''night_beast'', ''dawn_coder'', ''machine'', ''weekend_warrior'', ''burst_genius'',
      ''disciplined'', ''session_monster'', ''micro_shipper'', ''explorer'', ''mono_focused'']
   \<and> ((\<exists>i<length (allArchetypes s).
          condition (allArchetypes s ! i) s
          \<and> (\<forall>j<i. \<not> condition (allArchetypes s ! j) s)
          \<and> getArchetype s = info (allArchetypes s ! i))
        \<or> ((\<forall>i<length (allArchetypes s). \<not> condition (allArchetypes s ! i) s)
            \<and> getArchetype s = balanced))
   \<and> id' (getArchetype s) =
       (if nightPct s \<ge> 30 / 100 then ''night_beast''
        else if morningPct s \<ge> 40 / 100 then ''dawn_coder''
        else if maxStreak s \<ge> 30 then ''machine''
        else if weekendRatio s \<ge> 18 / 10 then ''weekend_warrior''
        else if activeDays s > 0
                \<and> (case totalDays s of
                      NaN \<Rightarrow> False
                    | Days t \<Rightarrow> of_int t / of_nat (activeDays s) \<ge> (25 / 10 :: rat))
          then ''burst_genius''
        else if activeDays s > 0
                \<and> (case totalDays s of
                      NaN \<Rightarrow> False
                    | Days t \<Rightarrow> of_int t / of_nat (activeDays s) < (13 / 10 :: rat))
                  \<and> totalHours s / of_nat (activeDays s) < 6
          then ''disciplined''
        else if avgSessionHours s \<ge> 25 / 10 then ''session_monster''
        else if sessionsPerDayAtLeast s 15 then ''micro_shipper''
        else if projectCount s \<ge> 20 then ''explorer''
        else if projectCount s \<le> 3 \<and> totalSessions s \<ge> 100 then ''mono_focused''
        else ''balanced'')
   \<and> (nightPct s \<ge> 30 / 100 \<and> maxStreak s \<ge> 30 \<longrightarrow> getArchetype s = info (ARCHETYPES ! 0)
                                                         \<and> id' (getArchetype s) = ''night_beast'')"
proof (intro conjI)
  show "map (\<lambda>a. id' (info a)) (allArchetypes s) =
     [''night_beast'', ''dawn_coder'', ''machine'', ''weekend_warrior'', ''burst_genius'',
      ''disciplined'', ''session_monster'', ''micro_shipper'', ''explorer'', ''mono_focused'']"
    by (rule allArchetypes_ids)
next
  show "(\<exists>i<length (allArchetypes s).
          condition (allArchetypes s ! i) s
          \<and> (\<forall>j<i. \<not> condition (allArchetypes s ! j) s)
          \<and> getArchetype s = info (allArchetypes s ! i))
        \<or> ((\<forall>i<length (allArchetypes s). \<not> condition (allArchetypes s ! i) s)
            \<and> getArchetype s = balanced)"
  proof (cases "firstMatch (allArchetypes s) s")
    case None
    then have "getArchetype s = balanced" by (simp add: getArchetype_def)
    moreover from None have "\<forall>i<length (allArchetypes s). \<not> condition (allArchetypes s ! i) s"
      by (simp only: firstMatch_None)
    ultimately show ?thesis by blast
  next
    case (Some r)
    from firstMatch_Some [OF Some] obtain i where
      "i < length (allArchetypes s)" "allArchetypes s ! i = r" "condition r s"
      "\<forall>j<i. \<not> condition (allArchetypes s ! j) s"
      by blast
    moreover have "getArchetype s = info r" using Some by (simp add: getArchetype_def)
    ultimately show ?thesis by blast
  qed
next
  show "id' (getArchetype s) =
       (if nightPct s \<ge> 30 / 100 then ''night_beast''
        else if morningPct s \<ge> 40 / 100 then ''dawn_coder''
        else if maxStreak s \<ge> 30 then ''machine''
        else if weekendRatio s \<ge> 18 / 10 then ''weekend_warrior''
        else if activeDays s > 0
                \<and> (case totalDays s of
                      NaN \<Rightarrow> False
                    | Days t \<Rightarrow> of_int t / of_nat (activeDays s) \<ge> (25 / 10 :: rat))
          then ''burst_genius''
        else if activeDays s > 0
                \<and> (case totalDays s of
                      NaN \<Rightarrow> False
                    | Days t \<Rightarrow> of_int t / of_nat (activeDays s) < (13 / 10 :: rat))
                  \<and> totalHours s / of_nat (activeDays s) < 6
          then ''disciplined''
        else if avgSessionHours s \<ge> 25 / 10 then ''session_monster''
        else if sessionsPerDayAtLeast s 15 then ''micro_shipper''
        else if projectCount s \<ge> 20 then ''explorer''
        else if projectCount s \<le> 3 \<and> totalSessions s \<ge> 100 then ''mono_focused''
        else ''balanced'')"
    by (rule getArchetype_chain)
next
  show "nightPct s \<ge> 30 / 100 \<and> maxStreak s \<ge> 30 \<longrightarrow> getArchetype s = info (ARCHETYPES ! 0)
                                                         \<and> id' (getArchetype s) = ''night_beast''"
    by (simp add: getArchetype_def allArchetypes_def ARCHETYPES_def)
qed

text \<open>
  An instance of C1: a snapshot with all sessions at night and a streak of 35 days
  satisfies both conditions and is classified \<open>night_beast\<close>.
\<close>

theorem getArchetype_first_match_witness:
  "nightPct \<lparr>totalSessions = 40, totalHours = 40, activeDays = 35, totalDays = Days 35, maxStreak = 35,
             nightPct = 1, morningPct = 0, afternoonPct = 0, eveningPct = 0, weekendRatio = 2 / 5,
             avgSessionHours = 1, hourBuckets = replicate 2 0 @ [40] @ replicate 21 0,
             dayBuckets = [5, 6, 6, 6, 6, 6, 5], projectCount = 1, peakHour = 2\<rparr> \<ge> 30 / 100
   \<and> maxStreak \<lparr>totalSessions = 40, totalHours = 40, activeDays = 35, totalDays = Days 35, maxStreak = 35,
             nightPct = 1, morningPct = 0, afternoonPct = 0, eveningPct = 0, weekendRatio = 2 / 5,
             avgSessionHours = 1, hourBuckets = replicate 2 0 @ [40] @ replicate 21 0,
             dayBuckets = [5, 6, 6, 6, 6, 6, 5], projectCount = 1, peakHour = 2\<rparr> \<ge> 30
   \<and> id' (getArchetype \<lparr>totalSessions = 40, totalHours = 40, activeDays = 35, totalDays = Days 35, maxStreak = 35,
             nightPct = 1, morningPct = 0, afternoonPct = 0, eveningPct = 0, weekendRatio = 2 / 5,
             avgSessionHours = 1, hourBuckets = replicate 2 0 @ [40] @ replicate 21 0,
             dayBuckets = [5, 6, 6, 6, 6, 6, 5], projectCount = 1, peakHour = 2\<rparr>) = ''night_beast''"
  (is "?A \<and> ?B \<and> ?C")
proof -
  have a: ?A by simp
  have b: ?B by simp
  have "?A \<and> ?B \<longrightarrow> getArchetype \<lparr>totalSessions = 40, totalHours = 40, activeDays = 35, totalDays = Days 35, maxStreak = 35,
             nightPct = 1, morningPct = 0, afternoonPct = 0, eveningPct = 0, weekendRatio = 2 / 5,
             avgSessionHours = 1, hourBuckets = replicate 2 0 @ [40] @ replicate 21 0,
             dayBuckets = [5, 6, 6, 6, 6, 6, 5], projectCount = 1, peakHour = 2\<rparr> = info (ARCHETYPES ! 0) \<and> ?C"
    by (rule getArchetype_first_match [THEN conjunct2, THEN conjunct2, THEN conjunct2])
  with a b show ?thesis by blast
qed

subsection \<open>Project count\<close>

text \<open>
  Claim C5, as the code has it. \<^verbatim>\<open>computeStats\<close> takes no project count: for a non-empty
  sequence of sessions it returns a snapshot whose \<open>projectCount\<close> field is 0. For any
  supplied count \<open>p\<close>, line 345 of \<^verbatim>\<open>main\<close> then stores \<open>p\<close> in that field and changes no other
  field, and it is this snapshot, with \<open>projectCount = p\<close>, that \<^verbatim>\<open>getArchetype\<close> receives and
  the pipeline delivers.
\<close>

theorem project_count_supplied:
  assumes "sessions \<noteq> []"
  shows "\<exists>st0 st a. computeStats tz sessions = Some st0 \<and> projectCount st0 = 0
           \<and> mainCore tz sessions p = Inr (st, a)
           \<and> st = st0\<lparr>projectCount := p\<rparr>
           \<and> projectCount st = p
           \<and> a = getArchetype st"
proof -
  from computeStats_nonempty [OF assms] obtain st0 where st0: "computeStats tz sessions = Some st0"
    by blast
  have zero: "projectCount st0 = 0" by (rule computeStats_fields(9) [OF st0])
  have "mainCore tz sessions p = Inr (st0\<lparr>projectCount := p\<rparr>, getArchetype (st0\<lparr>projectCount := p\<rparr>))"
    using assms st0 by (simp add: mainCore_def Let_def)
  with st0 zero show ?thesis by simp
qed

text \<open>An instance of C5: the example with 7 project directories.\<close>

theorem project_count_supplied_witness:
  "scanFiles fiveNights \<noteq> []
   \<and> (\<exists>st a. mainCore utc (scanFiles fiveNights) 7 = Inr (st, a) \<and> projectCount st = 7
              \<and> a = getArchetype st)"
proof -
  have ne: "scanFiles fiveNights \<noteq> []" by (rule fiveNights_nonempty)
  from project_count_supplied [OF ne, of utc 7] obtain st a where
    "mainCore utc (scanFiles fiveNights) 7 = Inr (st, a)" "projectCount st = 7" "a = getArchetype st"
    by blast
  with ne show ?thesis by blast
qed

text \<open>
  Claim C5 as it is worded fails for the example with 7 project directories: the
  snapshot that \<^verbatim>\<open>computeStats\<close> returns has \<open>projectCount = 0\<close>, not 7, and it is changed
  after it was computed: the pipeline delivers it with \<open>projectCount = 7\<close>.
\<close>

theorem project_count_counterexample:
  "scanFiles fiveNights \<noteq> []
   \<and> map_option projectCount (computeStats utc (scanFiles fiveNights)) = Some 0
   \<and> map_option projectCount (computeStats utc (scanFiles fiveNights)) \<noteq> Some 7
   \<and> map_sum id (map_prod projectCount id') (mainCore utc (scanFiles fiveNights) 7)
        = Inr (7, ''night_beast'')"
  unfolding fiveNights_sessions by code_simp

subsection \<open>Empty input\<close>

text \<open>
  Claim C6. For the empty sequence \<^verbatim>\<open>computeStats\<close> produces no snapshot (it returns
  \<^verbatim>\<open>null\<close>), and the pipeline ends with the outcome \<open>NoSessionsFound\<close>, which carries no
  archetype: the classifier is not run. For every non-empty sequence a snapshot is
  produced and the pipeline delivers it with an archetype.
\<close>

theorem empty_input_no_snapshot:
  "computeStats tz [] = None
   \<and> mainCore tz [] p = Inl NoSessionsFound
   \<and> (sessions \<noteq> [] \<longrightarrow>
        (\<exists>st. computeStats tz sessions = Some st)
        \<and> (\<exists>st a. mainCore tz sessions p = Inr (st, a)))"
proof (intro conjI impI)
  show "computeStats tz [] = None" by (simp add: computeStats_def)
  show "mainCore tz [] p = Inl NoSessionsFound" by (simp add: mainCore_def)
next
  assume ne: "sessions \<noteq> []"
  then show "\<exists>st. computeStats tz sessions = Some st" by (rule computeStats_nonempty)
  then obtain st where "computeStats tz sessions = Some st" by blast
  with ne show "\<exists>st a. mainCore tz sessions p = Inr (st, a)"
    by (simp add: mainCore_def Let_def)
qed

text \<open>An instance of C6: the example is not empty and is classified.\<close>

theorem empty_input_no_snapshot_witness:
  "scanFiles fiveNights \<noteq> []
   \<and> computeStats utc [] = None
   \<and> mainCore utc [] 7 = Inl NoSessionsFound
   \<and> (\<exists>st. computeStats utc (scanFiles fiveNights) = Some st)
   \<and> (\<exists>st a. mainCore utc (scanFiles fiveNights) 7 = Inr (st, a))"
proof -
  have ne: "scanFiles fiveNights \<noteq> []" by (rule fiveNights_nonempty)
  note e = empty_input_no_snapshot [of utc 7 "scanFiles fiveNights"]
  from e have 1: "computeStats utc [] = None" by (rule conjunct1)
  from e have 2: "mainCore utc [] 7 = Inl NoSessionsFound" by (rule conjunct2 [THEN conjunct1])
  from e have "scanFiles fiveNights \<noteq> [] \<longrightarrow>
        (\<exists>st. computeStats utc (scanFiles fiveNights) = Some st)
        \<and> (\<exists>st a. mainCore utc (scanFiles fiveNights) 7 = Inr (st, a))"
    by (rule conjunct2 [THEN conjunct2])
  with ne 1 2 show ?thesis by blast
qed

end
